theory Spec2Isabelle
  imports Complex_Main "HOL-Library.Log_Nat"
begin

section \<open>The analyze view of ResQBridge (src/Pages/Predict.tsx)\<close>

text \<open>
  The component \<^verbatim>\<open>Predict\<close> keeps five state variables, registers one effect on
  \<^verbatim>\<open>imageFile\<close>, and has two event handlers, \<^verbatim>\<open>handleFileChange\<close> and the
  asynchronous \<^verbatim>\<open>handleAnalyze\<close>. The embedding threads one record through every
  function: the five state variables, the bookkeeping React keeps for the effect, the
  browser's supply of object URLs, and the trace of every setter and external call
  in the order the code performs them.
\<close>

subsection \<open>Data\<close>

text \<open>
  A \<^verbatim>\<open>File\<close> is an object reference; equality of the model is JavaScript's
  \<^verbatim>\<open>Object.is\<close> on the reference. An object URL is the string
  \<^verbatim>\<open>blob:...\<close> that \<^verbatim>\<open>URL.createObjectURL\<close> returns: never empty, and
  different on every call.
\<close>

datatype File = File nat

datatype url = Blob nat

text \<open>
  A JavaScript \<^verbatim>\<open>number\<close> is an IEEE 754 double: a finite value (a rational),
  NaN, or an infinity. The sign of zero is not modelled; nothing below tells the
  two zeros apart.
\<close>

datatype number = Finite rat | NaN | PosInfinity | NegInfinity

record Detection =
  class' :: string
  confidence :: number
  severity :: "string option"

record AnalyzeResult =
  success :: bool
  accidentDetected :: bool
  detection :: "Detection option"
  processedImage :: "string option"

text \<open>
  What a promise is rejected with (\<^verbatim>\<open>err: any\<close> in the \<^verbatim>\<open>catch\<close>):
  a bare string, as \<^verbatim>\<open>convertFileToBase64\<close> rejects; an error object whose
  \<^verbatim>\<open>message\<close> is a string or undefined; or undefined or null, which a promise
  can be rejected with as well and which the type \<^verbatim>\<open>any\<close> admits.
\<close>

datatype thrown = ThrownString string | ThrownError "string option" | ThrownNullish

datatype js_error = TypeError

datatype 'a promise = Pending | Fulfilled 'a | RejectedWith thrown

text \<open>The calls of the component, in a trace.\<close>

datatype action =
    SetImageFile File
  | SetPreviewUrl "url option"
  | SetResult "AnalyzeResult option"
  | SetLoading bool
  | SetError "string option"
  | CreateObjectURL File url
  | RevokeObjectURL url
  | ReadAsDataURL File
  | AnalyzeImage "string option"

text \<open>
  A suspended invocation of \<^verbatim>\<open>handleAnalyze\<close>: at its first \<^verbatim>\<open>await\<close>
  (line 63) or at its second (line 64).
\<close>

datatype task = AwaitEncode File | AwaitAnalyze "string option"

record world =
  imageFile :: "File option"
  previewUrl :: "url option"
  result :: "AnalyzeResult option"
  loading :: bool
  error :: "string option"
  deps :: "File option option"
  cleanup :: "url option"
  nextUrl :: nat
  inflight :: "task list"
  trace :: "action list"

text \<open>
  \<^verbatim>\<open>deps\<close> is the value of \<^verbatim>\<open>[imageFile]\<close> at the last run of the effect
  (\<open>None\<close> before the first run), \<^verbatim>\<open>cleanup\<close> the URL captured by the cleanup
  function that run returned, \<^verbatim>\<open>nextUrl\<close> the number of the next object URL,
  \<^verbatim>\<open>inflight\<close> the suspended invocations of \<^verbatim>\<open>handleAnalyze\<close>.
\<close>

subsection \<open>State setters and external calls\<close>

definition emit :: "action \<Rightarrow> world \<Rightarrow> world" where
  "emit a w = w\<lparr>trace := trace w @ [a]\<rparr>"

definition setImageFile :: "File \<Rightarrow> world \<Rightarrow> world" where
  "setImageFile f w = emit (SetImageFile f) (w\<lparr>imageFile := Some f\<rparr>)"

definition setPreviewUrl :: "url option \<Rightarrow> world \<Rightarrow> world" where
  "setPreviewUrl u w = emit (SetPreviewUrl u) (w\<lparr>previewUrl := u\<rparr>)"

definition setResult :: "AnalyzeResult option \<Rightarrow> world \<Rightarrow> world" where
  "setResult r w = emit (SetResult r) (w\<lparr>result := r\<rparr>)"

definition setLoading :: "bool \<Rightarrow> world \<Rightarrow> world" where
  "setLoading b w = emit (SetLoading b) (w\<lparr>loading := b\<rparr>)"

definition setError :: "string option \<Rightarrow> world \<Rightarrow> world" where
  "setError e w = emit (SetError e) (w\<lparr>error := e\<rparr>)"

definition createObjectURL :: "File \<Rightarrow> world \<Rightarrow> url \<times> world" where
  "createObjectURL f w =
     (Blob (nextUrl w), emit (CreateObjectURL f (Blob (nextUrl w))) (w\<lparr>nextUrl := Suc (nextUrl w)\<rparr>))"

definition revokeObjectURL :: "url \<Rightarrow> world \<Rightarrow> world" where
  "revokeObjectURL u w = emit (RevokeObjectURL u) w"

subsection \<open>The effect on \<^verbatim>\<open>imageFile\<close> (lines 29-36)\<close>

definition effect :: "world \<Rightarrow> world" where
  "effect w =
     (case imageFile w of
        Some f \<Rightarrow>
          (let (u, w1) = createObjectURL f w
           in (setPreviewUrl (Some u) w1)\<lparr>cleanup := Some u\<rparr>)
      | None \<Rightarrow> (setPreviewUrl None w)\<lparr>cleanup := None\<rparr>)"

definition runCleanup :: "world \<Rightarrow> world" where
  "runCleanup w =
     (case cleanup w of
        Some u \<Rightarrow> (revokeObjectURL u w)\<lparr>cleanup := None\<rparr>
      | None \<Rightarrow> w)"

text \<open>
  After a render React runs the effect when its dependency changed: first the
  cleanup the previous run returned, then the effect itself.
\<close>

definition flushEffects :: "world \<Rightarrow> world" where
  "flushEffects w =
     (if deps w = Some (imageFile w) then w
      else (effect (runCleanup w))\<lparr>deps := Some (imageFile w)\<rparr>)"

definition initial :: world where
  "initial = \<lparr>imageFile = None, previewUrl = None, result = None, loading = False,
     error = None, deps = None, cleanup = None, nextUrl = 0, inflight = [], trace = []\<rparr>"

definition mount :: world where
  "mount = flushEffects initial"

definition unmount :: "world \<Rightarrow> world" where
  "unmount w = runCleanup w"

subsection \<open>\<^verbatim>\<open>handleFileChange\<close> (lines 38-44)\<close>

text \<open>
  The argument is \<^verbatim>\<open>e.target.files\<close>: null or a list of files, whose element
  0 is undefined when the list is empty.
\<close>

definition handleFileChange :: "File list option \<Rightarrow> world \<Rightarrow> world" where
  "handleFileChange files w =
     (let w1 = setError None w
      in case files of
           Some (f # _) \<Rightarrow> setResult None (setImageFile f w1)
         | _ \<Rightarrow> w1)"

subsection \<open>\<^verbatim>\<open>convertFileToBase64\<close> (lines 46-52)\<close>

text \<open>
  The promise is settled by the first handler that fires; a later
  \<^verbatim>\<open>resolve\<close> or \<^verbatim>\<open>reject\<close> does nothing. \<^verbatim>\<open>OnLoadEnd r\<close> carries the
  value of \<^verbatim>\<open>reader.result\<close> when the event fires (null after an error).
\<close>

datatype reader_event = OnError | OnLoadEnd "string option"

definition resolve :: "'a \<Rightarrow> 'a promise \<Rightarrow> 'a promise" where
  "resolve v p = (case p of Pending \<Rightarrow> Fulfilled v | _ \<Rightarrow> p)"

definition reject :: "thrown \<Rightarrow> 'a promise \<Rightarrow> 'a promise" where
  "reject e p = (case p of Pending \<Rightarrow> RejectedWith e | _ \<Rightarrow> p)"

fun readerHandler :: "reader_event \<Rightarrow> string option promise \<Rightarrow> string option promise" where
  "readerHandler (OnLoadEnd r) p = resolve r p"
| "readerHandler OnError p = reject (ThrownString ''Error reading file'') p"

definition convertFileToBase64 :: "reader_event list \<Rightarrow> string option promise" where
  "convertFileToBase64 evs = foldl (\<lambda>p ev. readerHandler ev p) Pending evs"

text \<open>
  What the browser's FileReader fires for \<^verbatim>\<open>readAsDataURL\<close>: on success
  \<^verbatim>\<open>load\<close> (no handler here) and \<^verbatim>\<open>loadend\<close>; on failure \<^verbatim>\<open>error\<close> and
  then \<^verbatim>\<open>loadend\<close>, with a null result.
\<close>

datatype read_outcome = Loaded string | ReadFailed

fun fileReaderEvents :: "read_outcome \<Rightarrow> reader_event list" where
  "fileReaderEvents (Loaded d) = [OnLoadEnd (Some d)]"
| "fileReaderEvents ReadFailed = [OnError, OnLoadEnd None]"

subsection \<open>\<^verbatim>\<open>handleAnalyze\<close> (lines 54-77)\<close>

text \<open>
  \<^verbatim>\<open>err.message\<close>: undefined on a string, the field on an error object, and a
  TypeError on undefined or null, which have no properties to read.
\<close>

fun message :: "thrown \<Rightarrow> js_error + string option" where
  "message (ThrownString s) = Inr None"
| "message (ThrownError m) = Inr m"
| "message ThrownNullish = Inl TypeError"

text \<open>
  \<^verbatim>\<open>x || d\<close> on a string that may be undefined: undefined and the empty string
  are falsy.
\<close>

fun js_or :: "string option \<Rightarrow> string \<Rightarrow> string" where
  "js_or None d = d"
| "js_or (Some s) d = (if s = [] then d else s)"

definition simplifiedResult :: "'r AnalyzeResult_scheme \<Rightarrow> AnalyzeResult" where
  "simplifiedResult response =
     \<lparr>success = success response, accidentDetected = accidentDetected response,
      detection = detection response, processedImage = processedImage response\<rparr>"

text \<open>
  The \<^verbatim>\<open>catch\<close> block evaluates \<^verbatim>\<open>err.message\<close> before it calls
  \<^verbatim>\<open>setError\<close>. When that read throws, the block is left without the call; the
  \<^verbatim>\<open>finally\<close> block runs all the same, and the TypeError rejects the promise of
  \<^verbatim>\<open>handleAnalyze\<close>, which nothing awaits.
\<close>

definition handleAnalyze_catch :: "thrown \<Rightarrow> world \<Rightarrow> world" where
  "handleAnalyze_catch err w =
     (case message err of
        Inl TypeError \<Rightarrow> w
      | Inr m \<Rightarrow> setError (Some (js_or m ''Error analyzing image'')) w)"

definition handleAnalyze_finally :: "world \<Rightarrow> world" where
  "handleAnalyze_finally w = setLoading False w"

text \<open>
  The synchronous part, up to the first \<^verbatim>\<open>await\<close>: the guard, the three
  setters, and the call of \<^verbatim>\<open>convertFileToBase64\<close>, which starts the read.
\<close>

definition handleAnalyze_begin :: "world \<Rightarrow> world \<times> task option" where
  "handleAnalyze_begin w =
     (case imageFile w of
        None \<Rightarrow> (setError (Some ''Please select an image to analyze.'') w, None)
      | Some f \<Rightarrow>
          (emit (ReadAsDataURL f) (setResult None (setError None (setLoading True w))),
           Some (AwaitEncode f)))"

text \<open>
  What a suspended invocation is resumed with: the events of its FileReader, or the
  promise \<^verbatim>\<open>analyzeImage\<close> returned. An invocation whose promise is still pending
  stays suspended.
\<close>

datatype 'r settlement =
    ReaderEvents "reader_event list"
  | ApiReply "'r AnalyzeResult_scheme promise"

fun resume :: "task \<Rightarrow> 'r settlement \<Rightarrow> world \<Rightarrow> world \<times> task option" where
  "resume (AwaitEncode f) (ReaderEvents evs) w =
     (case convertFileToBase64 evs of
        Pending \<Rightarrow> (w, Some (AwaitEncode f))
      | RejectedWith err \<Rightarrow> (handleAnalyze_finally (handleAnalyze_catch err w), None)
      | Fulfilled base64 \<Rightarrow> (emit (AnalyzeImage base64) w, Some (AwaitAnalyze base64)))"
| "resume (AwaitAnalyze base64) (ApiReply p) w =
     (case p of
        Pending \<Rightarrow> (w, Some (AwaitAnalyze base64))
      | RejectedWith err \<Rightarrow> (handleAnalyze_finally (handleAnalyze_catch err w), None)
      | Fulfilled response \<Rightarrow>
          (handleAnalyze_finally (setResult (Some (simplifiedResult response)) w), None))"
| "resume t _ w = (w, Some t)"

text \<open>
  One invocation run to its end with nothing in between: \<open>reader\<close> gives the
  events the FileReader fires for a file, \<open>analyzeImage\<close> the promise of the API
  for a payload.
\<close>

definition settle ::
  "(File \<Rightarrow> reader_event list) \<Rightarrow> (string option \<Rightarrow> 'r AnalyzeResult_scheme promise) \<Rightarrow>
   task \<Rightarrow> 'r settlement" where
  "settle reader analyzeImage t =
     (case t of
        AwaitEncode f \<Rightarrow> ReaderEvents (reader f)
      | AwaitAnalyze base64 \<Rightarrow> ApiReply (analyzeImage base64))"

definition handleAnalyze ::
  "(File \<Rightarrow> reader_event list) \<Rightarrow> (string option \<Rightarrow> 'r AnalyzeResult_scheme promise) \<Rightarrow>
   world \<Rightarrow> world" where
  "handleAnalyze reader analyzeImage w =
     (case handleAnalyze_begin w of
        (w1, None) \<Rightarrow> w1
      | (w1, Some t1) \<Rightarrow>
          (case resume t1 (settle reader analyzeImage t1) w1 of
             (w2, None) \<Rightarrow> w2
           | (w2, Some t2) \<Rightarrow> fst (resume t2 (settle reader analyzeImage t2) w2)))"

subsection \<open>Numbers: \<^verbatim>\<open>*\<close> and \<^verbatim>\<open>toFixed\<close>\<close>

definition pow2 :: "int \<Rightarrow> rat" where
  "pow2 e = (if 0 \<le> e then 2 ^ nat e else 1 / 2 ^ nat (- e))"

text \<open>The exponent \<open>e\<close> of a positive rational: \<open>2 ^ e \<le> q < 2 ^ (e + 1)\<close>.\<close>

definition binade :: "rat \<Rightarrow> int" where
  "binade q =
     (let (a, b) = quotient_of q; k = bitlen a - bitlen b
      in if pow2 k \<le> q then k else k - 1)"

definition roundHalfEven :: "rat \<Rightarrow> int" where
  "roundHalfEven q =
     (let n = \<lfloor>q\<rfloor>; d = q - of_int n
      in if d < 1 / 2 then n else if 1 / 2 < d then n + 1 else if even n then n else n + 1)"

text \<open>
  Rounding a rational to the nearest double, ties to even: 53 significant bits, the
  least exponent of a unit in the last place is -1074, and a result of magnitude
  \<open>2 ^ 1024\<close> or more is an infinity.
\<close>

definition toDouble :: "rat \<Rightarrow> number" where
  "toDouble q =
     (if q = 0 then Finite 0
      else
        (let e = max (binade \<bar>q\<bar> - 52) (- 1074);
             v = of_int (roundHalfEven (q / pow2 e)) * pow2 e
         in if 2 ^ 1024 \<le> v then PosInfinity
            else if v \<le> - (2 ^ 1024) then NegInfinity
            else Finite v))"

text \<open>The operator \<^verbatim>\<open>*\<close> on numbers.\<close>

fun times_number :: "number \<Rightarrow> number \<Rightarrow> number" where
  "times_number (Finite a) (Finite b) = toDouble (a * b)"
| "times_number NaN y = NaN"
| "times_number x NaN = NaN"
| "times_number (Finite a) y =
     (if a = 0 then NaN else if (0 < a) = (y = PosInfinity) then PosInfinity else NegInfinity)"
| "times_number x (Finite b) =
     (if b = 0 then NaN else if (0 < b) = (x = PosInfinity) then PosInfinity else NegInfinity)"
| "times_number x y = (if x = y then PosInfinity else NegInfinity)"

definition digitChar :: "nat \<Rightarrow> char" where
  "digitChar d = ''0123456789'' ! d"

fun digits :: "nat \<Rightarrow> string" where
  "digits n = (if n < 10 then [digitChar n] else digits (n div 10) @ [digitChar (n mod 10)])"

text \<open>
  \<^verbatim>\<open>Number.prototype.toFixed(f)\<close>, by the steps of ECMAScript: a value that is
  not finite, or of magnitude \<open>10 ^ 21\<close> or more, is printed by the number's
  \<^verbatim>\<open>toString\<close> (for a finite value the parameter \<open>numberToString\<close>); otherwise
  \<open>n\<close> is the integer nearest to \<open>x * 10 ^ f\<close>, the larger of two, and its digits
  are padded with zeros to \<open>f + 1\<close> and split by a point before the last \<open>f\<close>.
  The only call passes 1, inside the range of 0 to 100 outside which the builtin throws.
\<close>

definition toFixed :: "(rat \<Rightarrow> string) \<Rightarrow> number \<Rightarrow> nat \<Rightarrow> string" where
  "toFixed numberToString x f =
     (case x of
        NaN \<Rightarrow> ''NaN''
      | PosInfinity \<Rightarrow> ''Infinity''
      | NegInfinity \<Rightarrow> ''-Infinity''
      | Finite q \<Rightarrow>
          (let s = (if q < 0 then ''-'' else []); a = \<bar>q\<bar>
           in if 10 ^ 21 \<le> a then s @ numberToString a
              else
                (let n = nat \<lfloor>a * 10 ^ f + 1 / 2\<rfloor>;
                     m = digits n;
                     z = (if length m \<le> f then replicate (f + 1 - length m) CHR ''0'' @ m else m)
                 in if f = 0 then s @ m
                    else s @ take (length z - f) z @ ''.'' @ drop (length z - f) z)))"

subsection \<open>The rendered view (lines 79-155)\<close>

text \<open>
  Each paragraph of the summary is its text content. A string that may be null is
  rendered by \<^verbatim>\<open>x && ...\<close> only when it is neither null nor empty.
\<close>

definition truthy :: "string option \<Rightarrow> bool" where
  "truthy x = (case x of None \<Rightarrow> False | Some s \<Rightarrow> s \<noteq> [])"

record DetectionBlock =
  typeLine :: string
  confidenceLine :: string
  severityLine :: string

record Summary =
  accidentLine :: string
  detectionBlock :: "DetectionBlock option"
  annotatedImage :: "string option"

record View =
  previewImage :: "url option"
  buttonDisabled :: bool
  buttonLabel :: string
  alert :: "string option"
  summary :: "Summary option"

definition renderDetection :: "(rat \<Rightarrow> string) \<Rightarrow> Detection \<Rightarrow> DetectionBlock" where
  "renderDetection numberToString d =
     \<lparr>typeLine = ''Type: '' @ class' d,
      confidenceLine =
        ''Confidence: '' @ toFixed numberToString (times_number (confidence d) (Finite 100)) 1 @ ''%'',
      severityLine = ''Severity: '' @ js_or (severity d) ''N/A''\<rparr>"

definition renderSummary :: "(rat \<Rightarrow> string) \<Rightarrow> AnalyzeResult \<Rightarrow> Summary" where
  "renderSummary numberToString r =
     \<lparr>accidentLine = ''Accident Detected: '' @ (if accidentDetected r then ''Yes'' else ''No''),
      detectionBlock =
        (if accidentDetected r then map_option (renderDetection numberToString) (detection r)
         else None),
      annotatedImage = (if truthy (processedImage r) then processedImage r else None)\<rparr>"

definition analyzeDisabled :: "world \<Rightarrow> bool" where
  "analyzeDisabled w = (loading w \<or> imageFile w = None)"

definition Predict :: "(rat \<Rightarrow> string) \<Rightarrow> world \<Rightarrow> View" where
  "Predict numberToString w =
     \<lparr>previewImage = previewUrl w,
      buttonDisabled = analyzeDisabled w,
      buttonLabel = (if loading w then ''Analyzing...'' else ''Analyze Image''),
      alert = (if truthy (error w) then error w else None),
      summary = map_option (renderSummary numberToString) (result w)\<rparr>"

subsection \<open>The mounted component under events\<close>

text \<open>
  An event is a change of the file input, a click on the Analyze button, or the
  settling of the promise a suspended invocation waits for. A disabled button
  dispatches no click. After every handler React renders and runs the effect.
\<close>

datatype 'r event =
    Change "File list option"
  | Click
  | Settled nat "'r settlement"

definition suspend :: "world \<times> task option \<Rightarrow> world" where
  "suspend p =
     (case p of
        (w, None) \<Rightarrow> w
      | (w, Some t) \<Rightarrow> w\<lparr>inflight := inflight w @ [t]\<rparr>)"

definition settleTask :: "nat \<Rightarrow> 'r settlement \<Rightarrow> world \<Rightarrow> world" where
  "settleTask i s w =
     (if i < length (inflight w) then
        (case resume (inflight w ! i) s w of
           (w1, None) \<Rightarrow> w1\<lparr>inflight := take i (inflight w) @ drop (Suc i) (inflight w)\<rparr>
         | (w1, Some t) \<Rightarrow> w1\<lparr>inflight := (inflight w)[i := t]\<rparr>)
      else w)"

fun dispatch :: "'r event \<Rightarrow> world \<Rightarrow> world" where
  "dispatch (Change files) w = handleFileChange files w"
| "dispatch Click w = (if analyzeDisabled w then w else suspend (handleAnalyze_begin w))"
| "dispatch (Settled i s) w = settleTask i s w"

definition step :: "world \<Rightarrow> 'r event \<Rightarrow> world" where
  "step w ev = flushEffects (dispatch ev w)"

definition run :: "'r event list \<Rightarrow> world" where
  "run evs = foldl step mount evs"

subsection \<open>The external calls of a trace\<close>

definition apiCalls :: "action list \<Rightarrow> string option list" where
  "apiCalls tr = concat (map (\<lambda>a. case a of AnalyzeImage b \<Rightarrow> [b] | _ \<Rightarrow> []) tr)"

definition fileReads :: "action list \<Rightarrow> File list" where
  "fileReads tr = concat (map (\<lambda>a. case a of ReadAsDataURL f \<Rightarrow> [f] | _ \<Rightarrow> []) tr)"

subsection \<open>Counting allocations and releases of an object URL in a trace\<close>

definition isUrlAction :: "action \<Rightarrow> bool" where
  "isUrlAction a = (case a of CreateObjectURL f u \<Rightarrow> True | RevokeObjectURL u \<Rightarrow> True | _ \<Rightarrow> False)"

definition created :: "url \<Rightarrow> action list \<Rightarrow> nat" where
  "created u tr = length (filter (\<lambda>a. case a of CreateObjectURL f u' \<Rightarrow> u' = u | _ \<Rightarrow> False) tr)"

definition revoked :: "url \<Rightarrow> action list \<Rightarrow> nat" where
  "revoked u tr = length (filter (\<lambda>a. a = RevokeObjectURL u) tr)"

text \<open>
  The life of one object URL, read off a trace: allocated once, then released once.
  Any other order (released before it is allocated, allocated or released twice) is
  \<open>Misused\<close>, and stays so.
\<close>

datatype url_state = Unallocated | Live | Released | Misused

fun url_step :: "url \<Rightarrow> url_state \<Rightarrow> action \<Rightarrow> url_state" where
  "url_step u st (CreateObjectURL f u') =
     (if u' = u then (if st = Unallocated then Live else Misused) else st)"
| "url_step u st (RevokeObjectURL u') =
     (if u' = u then (if st = Live then Released else Misused) else st)"
| "url_step u st a = st"

definition urlState :: "url \<Rightarrow> action list \<Rightarrow> url_state" where
  "urlState u tr = foldl (url_step u) Unallocated tr"

subsection \<open>Invariants of the mounted component\<close>

text \<open>
  The preview shown is the URL the pending cleanup will release; the URLs allocated
  so far are those numbered below \<^verbatim>\<open>nextUrl\<close>, each allocated once and each but
  the previewed one released once.
\<close>

definition urlInv :: "world \<Rightarrow> bool" where
  "urlInv w =
     (previewUrl w = cleanup w
      \<and> deps w = Some (imageFile w)
      \<and> (case imageFile w of
            None \<Rightarrow> cleanup w = None
          | Some f \<Rightarrow> (case cleanup w of
                         None \<Rightarrow> False
                       | Some u \<Rightarrow> CreateObjectURL f u \<in> set (trace w)))
      \<and> (\<forall>n. created (Blob n) (trace w) = (if n < nextUrl w then 1 else 0))
      \<and> (\<forall>n. revoked (Blob n) (trace w) =
               (if n < nextUrl w \<and> cleanup w \<noteq> Some (Blob n) then 1 else 0))
      \<and> (\<forall>n. urlState (Blob n) (trace w) =
               (if n < nextUrl w then (if cleanup w = Some (Blob n) then Live else Released)
                else Unallocated))
      \<and> (\<forall>n. cleanup w = Some (Blob n) \<longrightarrow> n < nextUrl w))"

text \<open>
  At most one invocation of \<^verbatim>\<open>handleAnalyze\<close> is suspended, loading is true
  exactly while one is, and then neither an error nor a result is stored.
\<close>

definition taskInv :: "world \<Rightarrow> bool" where
  "taskInv w =
     (length (inflight w) \<le> 1
      \<and> (loading w \<longleftrightarrow> inflight w \<noteq> [])
      \<and> (inflight w \<noteq> [] \<longrightarrow> error w = None \<and> result w = None))"

subsection \<open>Sample inputs\<close>

text \<open>
  The response of the spec's example (the confidence is the double nearest to 0.87,
  which is 7836263351624663 / 2^53),
  a reader that succeeds and one that fails, an API that answers with the sample
  response, one that rejects with an error object and one that rejects with
  undefined, and the mounted component after one file was selected.
\<close>

abbreviation sample_detection :: Detection where
  "sample_detection \<equiv>
     \<lparr>class' = ''collision'', confidence = Finite (7836263351624663 / 9007199254740992),
      severity = Some ''high''\<rparr>"

abbreviation sample_response :: AnalyzeResult where
  "sample_response \<equiv>
     \<lparr>success = True, accidentDetected = True, detection = Some sample_detection,
      processedImage = None\<rparr>"

abbreviation sample_reader :: "File \<Rightarrow> reader_event list" where
  "sample_reader \<equiv> \<lambda>f. fileReaderEvents (Loaded ''data:image/png;base64,iVBORw0KGgo='')"

abbreviation failing_reader :: "File \<Rightarrow> reader_event list" where
  "failing_reader \<equiv> \<lambda>f. fileReaderEvents ReadFailed"

abbreviation sample_api :: "string option \<Rightarrow> AnalyzeResult promise" where
  "sample_api \<equiv> \<lambda>b. Fulfilled sample_response"

abbreviation failing_api :: "string option \<Rightarrow> AnalyzeResult promise" where
  "failing_api \<equiv> \<lambda>b. RejectedWith (ThrownError (Some ''Network Error''))"

abbreviation nullish_api :: "string option \<Rightarrow> AnalyzeResult promise" where
  "nullish_api \<equiv> \<lambda>b. RejectedWith ThrownNullish"

abbreviation selected :: world where
  "selected \<equiv> run [Change (Some [File 1]) :: unit event]"

section \<open>Properties\<close>

lemmas setters =
  emit_def setImageFile_def setPreviewUrl_def setResult_def setLoading_def setError_def

lemmas effects =
  flushEffects_def effect_def runCleanup_def createObjectURL_def revokeObjectURL_def

lemma imageFile_mount: "imageFile mount = None"
  by (simp add: mount_def initial_def effects setters)

lemma trace_mount: "trace mount = [SetPreviewUrl None]"
  by (simp add: mount_def initial_def effects setters)

subsection \<open>What the handlers leave alone, and the invariants\<close>

lemma resume_frame:
  assumes "resume t s w = (w1, t1)"
  shows "nextUrl w1 = nextUrl w \<and> cleanup w1 = cleanup w \<and> deps w1 = deps w
       \<and> previewUrl w1 = previewUrl w \<and> imageFile w1 = imageFile w \<and> inflight w1 = inflight w
       \<and> (\<exists>acts. trace w1 = trace w @ acts \<and> (\<forall>a\<in>set acts. \<not> isUrlAction a))"
  using assms
  by (cases t; cases s)
     (auto simp: handleAnalyze_catch_def handleAnalyze_finally_def setters isUrlAction_def
           split: promise.splits sum.splits js_error.splits)

lemma begin_frame:
  assumes "handleAnalyze_begin w = (w1, t1)"
  shows "nextUrl w1 = nextUrl w \<and> cleanup w1 = cleanup w \<and> deps w1 = deps w
       \<and> previewUrl w1 = previewUrl w \<and> imageFile w1 = imageFile w \<and> inflight w1 = inflight w
       \<and> (\<exists>acts. trace w1 = trace w @ acts \<and> (\<forall>a\<in>set acts. \<not> isUrlAction a))"
  using assms
  by (auto simp: handleAnalyze_begin_def setters isUrlAction_def split: option.splits)

lemma dispatch_frame:
  "nextUrl (dispatch ev w) = nextUrl w \<and> cleanup (dispatch ev w) = cleanup w
   \<and> deps (dispatch ev w) = deps w \<and> previewUrl (dispatch ev w) = previewUrl w
   \<and> (\<exists>acts. trace (dispatch ev w) = trace w @ acts \<and> (\<forall>a\<in>set acts. \<not> isUrlAction a))"
proof (cases ev)
  case (Change files)
  then show ?thesis
    by (auto simp: handleFileChange_def Let_def setters isUrlAction_def split: option.splits list.splits)
next
  case Click
  obtain w1 t1 where b: "handleAnalyze_begin w = (w1, t1)" by (cases "handleAnalyze_begin w")
  from begin_frame [OF b] b Click show ?thesis
    by (auto simp: suspend_def split: option.splits)
next
  case (Settled i s)
  show ?thesis
  proof (cases "i < length (inflight w)")
    case True
    obtain w1 t1 where r: "resume (inflight w ! i) s w = (w1, t1)"
      by (cases "resume (inflight w ! i) s w")
    from resume_frame [OF r] r Settled True show ?thesis
      by (auto simp: settleTask_def split: option.splits)
  next
    case False
    with Settled show ?thesis by (simp add: settleTask_def)
  qed
qed

lemma created_append: "created u (tr @ acts) = created u tr + created u acts"
  by (simp add: created_def)

lemma revoked_append: "revoked u (tr @ acts) = revoked u tr + revoked u acts"
  by (simp add: revoked_def)

lemma created_other: "\<forall>a\<in>set acts. \<not> isUrlAction a \<Longrightarrow> created u acts = 0"
  by (auto simp: created_def isUrlAction_def filter_empty_conv split: action.splits)

lemma revoked_other: "\<forall>a\<in>set acts. \<not> isUrlAction a \<Longrightarrow> revoked u acts = 0"
  by (auto simp: revoked_def isUrlAction_def filter_empty_conv split: action.splits)

lemma url_step_other: "\<not> isUrlAction a \<Longrightarrow> url_step u st a = st"
  by (cases a) (simp_all add: isUrlAction_def)

lemma foldl_url_step_other:
  "\<forall>a\<in>set acts. \<not> isUrlAction a \<Longrightarrow> foldl (url_step u) st acts = st"
  by (induction acts arbitrary: st) (simp_all add: url_step_other)

lemma urlState_other:
  "\<forall>a\<in>set acts. \<not> isUrlAction a \<Longrightarrow> urlState u (tr @ acts) = urlState u tr"
  by (simp add: urlState_def foldl_url_step_other)

lemma urlState_append: "urlState u (tr @ acts) = foldl (url_step u) (urlState u tr) acts"
  by (simp add: urlState_def)

lemma created_simps:
  "created u [] = 0"
  "created u (a # as) = (case a of CreateObjectURL f u' \<Rightarrow> if u' = u then 1 else 0 | _ \<Rightarrow> 0) + created u as"
  by (simp_all add: created_def split: action.splits)

lemma revoked_simps:
  "revoked u [] = 0"
  "revoked u (a # as) = (if a = RevokeObjectURL u then 1 else 0) + revoked u as"
  by (simp_all add: revoked_def)

text \<open>The part of the invariant that a handler can disturb: the selected file.\<close>

lemma urlInv_flush_dispatch:
  assumes i: "urlInv w"
  shows "urlInv (flushEffects (dispatch ev w))"
proof -
  let ?v = "dispatch ev w"
  from dispatch_frame [of ev w] obtain acts where
    f: "nextUrl ?v = nextUrl w" "cleanup ?v = cleanup w" "deps ?v = deps w"
       "previewUrl ?v = previewUrl w"
       "trace ?v = trace w @ acts" "\<forall>a\<in>set acts. \<not> isUrlAction a"
    by blast
  have c: "created u (trace ?v) = created u (trace w)" for u
    by (simp add: f(5) created_append created_other [OF f(6)])
  have r: "revoked u (trace ?v) = revoked u (trace w)" for u
    by (simp add: f(5) revoked_append revoked_other [OF f(6)])
  have s: "urlState u (trace ?v) = urlState u (trace w)" for u
    by (simp add: f(5) urlState_other [OF f(6)])
  have m: "set (trace w) \<subseteq> set (trace ?v)"
    by (simp add: f(5))
  show ?thesis
  proof (cases "deps ?v = Some (imageFile ?v)")
    case True
    then have same: "imageFile ?v = imageFile w"
      using i f(3) by (simp add: urlInv_def)
    have "flushEffects ?v = ?v" using True by (simp add: flushEffects_def)
    moreover have "urlInv ?v"
      using i m unfolding urlInv_def f(1-4) c r s same
      by (auto split: option.splits)
    ultimately show ?thesis by simp
  next
    case False
    have tr: "trace (flushEffects ?v) =
        trace ?v @ (case cleanup w of None \<Rightarrow> [] | Some u \<Rightarrow> [RevokeObjectURL u])
          @ (case imageFile ?v of None \<Rightarrow> [SetPreviewUrl None]
             | Some f \<Rightarrow> [CreateObjectURL f (Blob (nextUrl w)), SetPreviewUrl (Some (Blob (nextUrl w)))])"
      using False f(1,2) by (auto simp: effects setters split: option.splits)
    have cl: "cleanup (flushEffects ?v) = (case imageFile ?v of None \<Rightarrow> None | Some f \<Rightarrow> Some (Blob (nextUrl w)))"
      using False f(1,2) by (auto simp: effects setters split: option.splits)
    have pv: "previewUrl (flushEffects ?v) = cleanup (flushEffects ?v)"
      using False f(1,2) by (auto simp: effects setters split: option.splits)
    have nx: "nextUrl (flushEffects ?v) = (case imageFile ?v of None \<Rightarrow> nextUrl w | Some f \<Rightarrow> Suc (nextUrl w))"
      using False f(1,2) by (auto simp: effects setters split: option.splits)
    have im: "imageFile (flushEffects ?v) = imageFile ?v" "deps (flushEffects ?v) = Some (imageFile ?v)"
      using False by (auto simp: effects setters split: option.splits)
    from i have i4: "\<And>n. created (Blob n) (trace w) = (if n < nextUrl w then 1 else 0)"
      and i5: "\<And>n. revoked (Blob n) (trace w) = (if n < nextUrl w \<and> cleanup w \<noteq> Some (Blob n) then 1 else 0)"
      and i6: "\<And>n. urlState (Blob n) (trace w) =
               (if n < nextUrl w then (if cleanup w = Some (Blob n) then Live else Released)
                else Unallocated)"
      and i7: "\<And>n. cleanup w = Some (Blob n) \<Longrightarrow> n < nextUrl w"
      by (simp_all add: urlInv_def)
    show ?thesis
      unfolding urlInv_def pv im tr cl nx
      using i7
      by (cases "cleanup w"; cases "imageFile ?v")
         (auto simp: created_append revoked_append urlState_append c r s i4 i5 i6
                     created_simps revoked_simps)
  qed
qed

lemma urlInv_mount: "urlInv mount"
  by (simp add: urlInv_def mount_def initial_def effects setters created_def revoked_def urlState_def)

lemma urlInv_run: "urlInv (run evs)"
proof -
  have "urlInv w \<Longrightarrow> urlInv (foldl step w evs)" for w :: world and evs :: "'a event list"
    by (induction evs arbitrary: w) (simp_all add: step_def urlInv_flush_dispatch)
  then show ?thesis by (simp add: run_def urlInv_mount)
qed


lemma flushEffects_frame:
  "loading (flushEffects w) = loading w \<and> inflight (flushEffects w) = inflight w
   \<and> error (flushEffects w) = error w \<and> result (flushEffects w) = result w
   \<and> imageFile (flushEffects w) = imageFile w"
  by (auto simp: effects setters split: option.splits)

lemma taskInv_dispatch:
  assumes i: "taskInv w"
  shows "taskInv (dispatch ev w)"
proof (cases ev)
  case (Change files)
  with i show ?thesis
    by (auto simp: taskInv_def handleFileChange_def Let_def setters split: option.splits list.splits)
next
  case Click
  with i show ?thesis
    by (auto simp: taskInv_def analyzeDisabled_def suspend_def handleAnalyze_begin_def setters
             split: option.splits)
next
  case (Settled i' s)
  show ?thesis
  proof (cases "i' < length (inflight w)")
    case False
    with i Settled show ?thesis by (simp add: settleTask_def)
  next
    case True
    with i obtain t where t: "inflight w = [t]" "i' = 0"
      by (cases "inflight w") (auto simp: taskInv_def)
    from i t Settled show ?thesis
      by (cases t; cases s)
         (auto simp: taskInv_def settleTask_def handleAnalyze_catch_def handleAnalyze_finally_def
                     setters split: promise.splits sum.splits js_error.splits)
  qed
qed

lemma taskInv_mount: "taskInv mount"
  by (simp add: taskInv_def mount_def initial_def effects setters)

lemma taskInv_flushEffects: "taskInv w \<Longrightarrow> taskInv (flushEffects w)"
  using flushEffects_frame [of w] by (simp add: taskInv_def)

lemma taskInv_run: "taskInv (run evs)"
proof -
  have "taskInv w \<Longrightarrow> taskInv (foldl step w evs)" for w :: world and evs :: "'a event list"
    by (induction evs arbitrary: w) (simp_all add: step_def taskInv_dispatch taskInv_flushEffects)
  then show ?thesis by (simp add: run_def taskInv_mount)
qed

lemma run_snoc: "run (evs @ [ev]) = step (run evs) ev"
  by (simp add: run_def)

lemma flushEffects_idle: "deps w = Some (imageFile w) \<Longrightarrow> flushEffects w = w"
  by (simp add: flushEffects_def)

subsection \<open>Digits, rounding and the doubles\<close>

text \<open>
  The recursion of \<open>digits\<close> is unfolded by hand. The lemmas below say that
  \<open>binade\<close> is the binary exponent, that \<open>toDouble\<close> returns a value with a
  mantissa of at most 53 bits within half a unit in the last place of its argument,
  and what \<open>toFixed\<close> prints for one fraction digit.
\<close>

declare digits.simps [simp del]

lemma digitChar_0: "digitChar 0 = CHR ''0''"
  by (simp add: digitChar_def)

lemma digits_small: "n < 10 \<Longrightarrow> digits n = [digitChar n]"
  by (subst digits.simps) simp

lemma digits_large: "10 \<le> n \<Longrightarrow> digits n = digits (n div 10) @ [digitChar (n mod 10)]"
  by (subst digits.simps) simp

lemma length_digits: "0 < length (digits n)"
  by (cases "n < 10") (simp_all add: digits_small digits_large)

lemma digitChar_digit: "d < 10 \<Longrightarrow> digitChar d \<in> set ''0123456789''"
  unfolding digitChar_def by (rule nth_mem) simp

lemma digits_digit: "set (digits n) \<subseteq> set ''0123456789''"
proof (induction n rule: digits.induct)
  case (1 n)
  show ?case
  proof (cases "n < 10")
    case True
    then show ?thesis using digitChar_digit [of n] by (simp add: digits_small)
  next
    case False
    then have "set (digits (n div 10)) \<subseteq> set ''0123456789''" using 1 by simp
    moreover have "digitChar (n mod 10) \<in> set ''0123456789''" by (rule digitChar_digit) simp
    ultimately show ?thesis using False by (simp add: digits_large)
  qed
qed

lemma toFixed_one:
  assumes "\<bar>x\<bar> < 10 ^ 21"
  shows "toFixed numberToString (Finite x) 1 =
           (if x < 0 then ''-'' else []) @ digits (nat \<lfloor>\<bar>x\<bar> * 10 + 1 / 2\<rfloor> div 10)
             @ ''.'' @ [digitChar (nat \<lfloor>\<bar>x\<bar> * 10 + 1 / 2\<rfloor> mod 10)]"
proof (cases "nat \<lfloor>\<bar>x\<bar> * 10 + 1 / 2\<rfloor> < 10")
  case True
  with assms show ?thesis
    by (simp add: toFixed_def Let_def digits_small digitChar_0)
next
  case False
  let ?n = "nat \<lfloor>\<bar>x\<bar> * 10 + 1 / 2\<rfloor>"
  from False have d: "digits ?n = digits (?n div 10) @ [digitChar (?n mod 10)]"
    by (simp add: digits_large)
  have l: "0 < length (digits (?n div 10))" by (rule length_digits)
  from assms l show ?thesis
    by (simp add: toFixed_def Let_def d)
qed

lemma pow2_powi: "pow2 e = 2 powi e"
  by (simp add: pow2_def power_int_def field_simps)

lemma pow2_pos: "0 < pow2 e"
  by (simp add: pow2_powi)

lemma roundHalfEven_near: "\<bar>of_int (roundHalfEven y) - y\<bar> \<le> 1 / 2"
  unfolding roundHalfEven_def Let_def
  by (auto simp: abs_if not_less) linarith+


lemma binade_bounds:
  assumes "0 < a"
  shows "pow2 (binade a) \<le> a \<and> a < pow2 (binade a + 1)"
proof -
  obtain p q where pq: "quotient_of a = (p, q)" by (cases "quotient_of a")
  have q: "0 < q" using pq by (rule quotient_of_denom_pos)
  have a: "a = of_int p / of_int q" using pq by (rule quotient_of_div)
  have p: "0 < p" using assms q unfolding a by (simp add: zero_less_divide_iff)
  let ?k = "bitlen p - bitlen q"
  from bitlen_bounds [OF p] have bp: "(2::int) ^ nat (bitlen p - 1) \<le> p" "p < 2 ^ nat (bitlen p)"
    by simp_all
  from bitlen_bounds [OF q] have bq: "(2::int) ^ nat (bitlen q - 1) \<le> q" "q < 2 ^ nat (bitlen q)"
    by simp_all
  have lp: "1 \<le> bitlen p" using p by (simp add: bitlen_alt_def)
  have lq: "1 \<le> bitlen q" using q by (simp add: bitlen_alt_def)
  have rp: "(2::rat) powi (bitlen p - 1) \<le> of_int p" "of_int p < (2::rat) powi (bitlen p)"
  proof -
    have "(of_int ((2::int) ^ nat (bitlen p - 1)) :: rat) \<le> of_int p"
      using bp(1) by (simp only: of_int_le_iff)
    then show "(2::rat) powi (bitlen p - 1) \<le> of_int p"
      using lp by (simp add: power_int_def)
    have "(of_int p :: rat) < of_int ((2::int) ^ nat (bitlen p))"
      using bp(2) by (simp only: of_int_less_iff)
    then show "of_int p < (2::rat) powi (bitlen p)"
      using lp by (simp add: power_int_def)
  qed
  have rq: "(2::rat) powi (bitlen q - 1) \<le> of_int q" "of_int q < (2::rat) powi (bitlen q)"
  proof -
    have "(of_int ((2::int) ^ nat (bitlen q - 1)) :: rat) \<le> of_int q"
      using bq(1) by (simp only: of_int_le_iff)
    then show "(2::rat) powi (bitlen q - 1) \<le> of_int q"
      using lq by (simp add: power_int_def)
    have "(of_int q :: rat) < of_int ((2::int) ^ nat (bitlen q))"
      using bq(2) by (simp only: of_int_less_iff)
    then show "of_int q < (2::rat) powi (bitlen q)"
      using lq by (simp add: power_int_def)
  qed
  have P: "(0::rat) < of_int p" and Q: "(0::rat) < of_int q" using p q by simp_all
  have lo: "pow2 (?k - 1) < a"
  proof -
    have "pow2 (?k - 1) = 2 powi (bitlen p - 1) / 2 powi (bitlen q)"
      by (simp add: pow2_powi power_int_diff [symmetric] algebra_simps)
    also have "\<dots> \<le> of_int p / 2 powi (bitlen q)"
      using rp(1) by (simp add: divide_right_mono)
    also have "\<dots> < of_int p / of_int q"
      using rq(2) P Q by (simp add: divide_strict_left_mono)
    finally show ?thesis by (simp add: a)
  qed
  have hi: "a < pow2 (?k + 1)"
  proof -
    have "a < 2 powi (bitlen p) / of_int q"
      unfolding a using rp(2) Q by (simp add: divide_strict_right_mono)
    also have "\<dots> \<le> 2 powi (bitlen p) / 2 powi (bitlen q - 1)"
      using rq(1) Q by (simp add: divide_left_mono)
    also have "\<dots> = pow2 (?k + 1)"
      by (simp add: pow2_powi power_int_diff [symmetric] algebra_simps)
    finally show ?thesis .
  qed
  show ?thesis
    using lo hi pq by (auto simp: binade_def Let_def)
qed


lemma pow2_diff: "pow2 (a - b) = pow2 a / pow2 b"
  by (simp add: pow2_powi power_int_diff)

lemma pow2_52: "pow2 52 = 2 ^ 52"
  by (simp add: pow2_def)

lemma pow2_m1074: "pow2 (- 1074) = 1 / 2 ^ 1074"
  by (simp add: pow2_def)

lemma ulp_small:
  assumes "q \<noteq> 0"
  shows "pow2 (max (binade \<bar>q\<bar> - 52) (- 1074)) \<le> \<bar>q\<bar> / 2 ^ 52 + 1 / 2 ^ 1074"
proof (cases "binade \<bar>q\<bar> - 52 \<le> - 1074")
  case True
  then have "max (binade \<bar>q\<bar> - 52) (- 1074) = - 1074" by simp
  then show ?thesis by (simp add: pow2_m1074)
next
  case False
  then have m: "max (binade \<bar>q\<bar> - 52) (- 1074) = binade \<bar>q\<bar> - 52" by simp
  from assms have "pow2 (binade \<bar>q\<bar>) \<le> \<bar>q\<bar>" using binade_bounds [of "\<bar>q\<bar>"] by simp
  then have "pow2 (binade \<bar>q\<bar> - 52) \<le> \<bar>q\<bar> / 2 ^ 52"
    by (simp add: pow2_diff pow2_52 divide_right_mono)
  then show ?thesis unfolding m by simp
qed

lemma toDouble_near:
  assumes "q \<noteq> 0"
  shows "\<bar>of_int (roundHalfEven (q / pow2 (max (binade \<bar>q\<bar> - 52) (- 1074))))
            * pow2 (max (binade \<bar>q\<bar> - 52) (- 1074)) - q\<bar>
         \<le> \<bar>q\<bar> / 2 ^ 53 + 1 / 2 ^ 1075"
proof -
  let ?u = "pow2 (max (binade \<bar>q\<bar> - 52) (- 1074))"
  let ?m = "of_int (roundHalfEven (q / ?u)) :: rat"
  have u: "0 < ?u" by (rule pow2_pos)
  have "?m * ?u - q = (?m - q / ?u) * ?u"
    using u by (simp add: field_simps)
  then have "\<bar>?m * ?u - q\<bar> = \<bar>?m - q / ?u\<bar> * ?u"
    using u by (simp add: abs_mult)
  also have "\<dots> \<le> 1 / 2 * ?u"
    using roundHalfEven_near [of "q / ?u"] u by (simp add: mult_right_mono)
  also have "\<dots> \<le> 1 / 2 * (\<bar>q\<bar> / 2 ^ 52 + 1 / 2 ^ 1074)"
    using ulp_small [OF assms] by simp
  also have "\<dots> = \<bar>q\<bar> / 2 ^ 53 + 1 / 2 ^ 1075"
    by simp
  finally show ?thesis .
qed

lemma toDouble_Finite:
  assumes "\<bar>q\<bar> \<le> 10 ^ 20"
  shows "\<exists>x. toDouble q = Finite x \<and> \<bar>x - q\<bar> \<le> \<bar>q\<bar> / 2 ^ 53 + 1 / 2 ^ 1075 \<and> \<bar>x\<bar> < 10 ^ 21"
proof (cases "q = 0")
  case True
  then show ?thesis by (simp add: toDouble_def)
next
  case False
  let ?x = "of_int (roundHalfEven (q / pow2 (max (binade \<bar>q\<bar> - 52) (- 1074))))
            * pow2 (max (binade \<bar>q\<bar> - 52) (- 1074))"
  have n: "\<bar>?x - q\<bar> \<le> \<bar>q\<bar> / 2 ^ 53 + 1 / 2 ^ 1075" by (rule toDouble_near [OF False])
  have "\<bar>q\<bar> / 2 ^ 53 + 1 / 2 ^ 1075 \<le> \<bar>q\<bar> + 1"
    by (simp add: field_simps add_mono)
  with n have "\<bar>?x\<bar> \<le> 2 * \<bar>q\<bar> + 1" by linarith
  also have "\<dots> \<le> 2 * 10 ^ 20 + 1" using assms by simp
  also have "\<dots> < (10::rat) ^ 21" by simp
  finally have b: "\<bar>?x\<bar> < 10 ^ 21" .
  have "(10::rat) ^ 21 < 2 ^ 1024" by simp
  with b have "\<not> 2 ^ 1024 \<le> ?x" "\<not> ?x \<le> - (2 ^ 1024)" by linarith+
  with False have "toDouble q = Finite ?x"
    by (simp add: toDouble_def Let_def)
  with n b show ?thesis by blast
qed


lemma pow2_mono: "a \<le> b \<Longrightarrow> pow2 a \<le> pow2 b"
  by (simp add: pow2_powi power_int_increasing)

lemma roundHalfEven_bound:
  assumes "\<bar>y\<bar> < of_int N"
  shows "\<bar>roundHalfEven y\<bar> \<le> N"
proof -
  from assms have "y < of_int N" "- of_int N < y" by (simp_all add: abs_less_iff)
  then have "\<lfloor>y\<rfloor> < N" "- N \<le> \<lfloor>y\<rfloor>"
    by (simp_all add: floor_less_iff le_floor_iff less_imp_le)
  then show ?thesis
    by (auto simp: roundHalfEven_def Let_def abs_le_iff)
qed

lemma toDouble_mantissa:
  assumes "q \<noteq> 0"
  shows "\<bar>roundHalfEven (q / pow2 (max (binade \<bar>q\<bar> - 52) (- 1074)))\<bar> \<le> 2 ^ 53"
proof -
  let ?b = "binade \<bar>q\<bar>"
  let ?u = "pow2 (max (?b - 52) (- 1074))"
  have u: "0 < ?u" by (rule pow2_pos)
  from assms have "\<bar>q\<bar> < pow2 (?b + 1)" using binade_bounds [of "\<bar>q\<bar>"] by simp
  also have "pow2 (?b + 1) = pow2 (?b - 52) * 2 ^ 53"
    by (simp add: pow2_powi power_int_diff power_int_add_1)
  also have "\<dots> \<le> ?u * 2 ^ 53"
    by (simp add: pow2_mono)
  finally have "\<bar>q\<bar> / ?u < 2 ^ 53"
    using u by (simp add: field_simps)
  then have "\<bar>q / ?u\<bar> < of_int (2 ^ 53)"
    using u by simp
  then show ?thesis by (rule roundHalfEven_bound)
qed

lemma binade_eqI:
  assumes "pow2 k \<le> a" and "a < pow2 (k + 1)"
  shows "binade a = k"
proof -
  have "0 < a" using assms(1) pow2_pos [of k] by linarith
  then have b: "pow2 (binade a) \<le> a" "a < pow2 (binade a + 1)"
    using binade_bounds [of a] by simp_all
  have "\<not> binade a < k"
  proof
    assume "binade a < k"
    then have "pow2 (binade a + 1) \<le> pow2 k" by (simp add: pow2_mono)
    with b(2) assms(1) show False by linarith
  qed
  moreover have "\<not> k < binade a"
  proof
    assume "k < binade a"
    then have "pow2 (k + 1) \<le> pow2 (binade a)" by (simp add: pow2_mono)
    with b(1) assms(2) show False by linarith
  qed
  ultimately show ?thesis by linarith
qed

lemma sample_product:
  "times_number (Finite (7836263351624663 / 9007199254740992)) (Finite 100) = Finite 87"
proof -
  let ?q = "7836263351624663 / 9007199254740992 * 100 :: rat"
  have b: "binade \<bar>?q\<bar> = 6"
    by (rule binade_eqI) (simp_all add: pow2_def)
  have e: "max (binade \<bar>?q\<bar> - 52) (- 1074) = - 46"
    unfolding b by simp
  have f: "\<lfloor>195906583790616575 / 32 :: rat\<rfloor> = 6122080743456767"
    by (simp add: floor_eq_iff)
  have r: "roundHalfEven (195906583790616575 / 32) = 6122080743456768"
    by (simp add: roundHalfEven_def Let_def f)
  have "toDouble ?q = Finite 87"
    unfolding toDouble_def Let_def e by (simp add: pow2_def r)
  then show ?thesis by simp
qed

lemma sample_double: "toDouble (87 / 100) = Finite (7836263351624663 / 9007199254740992)"
proof -
  have b: "binade \<bar>87 / 100\<bar> = - 1"
    by (rule binade_eqI) (simp_all add: pow2_def)
  have e: "max (binade \<bar>87 / 100\<bar> - 52) (- 1074) = - 53"
    unfolding b by simp
  have f: "\<lfloor>195906583790616576 / 25 :: rat\<rfloor> = 7836263351624663"
    by (simp add: floor_eq_iff)
  have r: "roundHalfEven (195906583790616576 / 25) = 7836263351624663"
    by (simp add: roundHalfEven_def Let_def f)
  show ?thesis
    unfolding toDouble_def Let_def e by (simp add: pow2_def r)
qed


lemma sample_digits:
  "digits (nat \<lfloor>\<bar>87 :: rat\<bar> * 10 + 1 / 2\<rfloor> div 10) = ''87''"
  "digitChar (nat \<lfloor>\<bar>87 :: rat\<bar> * 10 + 1 / 2\<rfloor> mod 10) = CHR ''0''"
proof -
  have f: "\<lfloor>\<bar>87 :: rat\<bar> * 10 + 1 / 2\<rfloor> = 870"
    by (simp add: floor_eq_iff)
  show "digits (nat \<lfloor>\<bar>87 :: rat\<bar> * 10 + 1 / 2\<rfloor> div 10) = ''87''"
    unfolding f by (simp add: digits_large digits_small digitChar_def)
  show "digitChar (nat \<lfloor>\<bar>87 :: rat\<bar> * 10 + 1 / 2\<rfloor> mod 10) = CHR ''0''"
    unfolding f by (simp add: digitChar_def)
qed

subsection \<open>Submitting without a file\<close>

text \<open>
  Claim C3. In a state with no file selected, \<^verbatim>\<open>handleAnalyze\<close> returns in its
  synchronous part, with no suspended invocation left: it reads no file and calls no
  API (the trace grows by the one \<^verbatim>\<open>setError\<close>), sets the error to the
  validation message, and leaves loading, the result and every other field as they
  were.
\<close>

theorem handleAnalyze_no_file:
  assumes "imageFile w = None"
  shows "handleAnalyze_begin w =
           (w\<lparr>error := Some ''Please select an image to analyze.'',
              trace := trace w @ [SetError (Some ''Please select an image to analyze.'')]\<rparr>, None)
       \<and> handleAnalyze reader analyzeImage w = fst (handleAnalyze_begin w)
       \<and> error (handleAnalyze reader analyzeImage w) = Some ''Please select an image to analyze.''
       \<and> loading (handleAnalyze reader analyzeImage w) = loading w
       \<and> result (handleAnalyze reader analyzeImage w) = result w
       \<and> trace (handleAnalyze reader analyzeImage w) =
           trace w @ [SetError (Some ''Please select an image to analyze.'')]"
  using assms by (simp add: handleAnalyze_def handleAnalyze_begin_def setters)

theorem handleAnalyze_no_file_witness:
  "imageFile mount = None
   \<and> error (handleAnalyze (\<lambda>f. fileReaderEvents (Loaded ''data:,''))
        (\<lambda>b. (Pending :: AnalyzeResult promise)) mount)
       = Some ''Please select an image to analyze.''
   \<and> trace (handleAnalyze (\<lambda>f. fileReaderEvents (Loaded ''data:,''))
        (\<lambda>b. (Pending :: AnalyzeResult promise)) mount)
       = [SetPreviewUrl None, SetError (Some ''Please select an image to analyze.'')]"
  using handleAnalyze_no_file [OF imageFile_mount,
      of "\<lambda>f. fileReaderEvents (Loaded ''data:,'')" "\<lambda>b. (Pending :: AnalyzeResult promise)"]
    imageFile_mount trace_mount
  by simp

subsection \<open>A change event without a file\<close>

text \<open>
  Claim C10. When the change event carries no file (\<^verbatim>\<open>e.target.files\<close> is null
  or empty), \<^verbatim>\<open>handleFileChange\<close> only sets the error to null: the selected file,
  the preview URL and the stored result stay as they were. In the mounted component
  the render that follows runs no effect, so the whole state after the event is the
  state before it with the error null.
\<close>

theorem handleFileChange_no_file:
  assumes "files = None \<or> files = Some []"
  shows "handleFileChange files w = w\<lparr>error := None, trace := trace w @ [SetError None]\<rparr>
       \<and> error (handleFileChange files w) = None
       \<and> imageFile (handleFileChange files w) = imageFile w
       \<and> previewUrl (handleFileChange files w) = previewUrl w
       \<and> result (handleFileChange files w) = result w
       \<and> run (evs @ [Change files]) =
           (run evs)\<lparr>error := None, trace := trace (run evs) @ [SetError None]\<rparr>"
proof -
  have h: "handleFileChange files v = v\<lparr>error := None, trace := trace v @ [SetError None]\<rparr>" for v
    using assms by (auto simp add: handleFileChange_def setters)
  have "deps (run evs) = Some (imageFile (run evs))"
    using urlInv_run [of evs] by (simp add: urlInv_def)
  then have "flushEffects (handleFileChange files (run evs)) = handleFileChange files (run evs)"
    unfolding h by (simp add: flushEffects_def)
  then show ?thesis
    by (simp add: h run_snoc step_def)
qed

theorem handleFileChange_no_file_witness:
  "error (handleFileChange None (initial\<lparr>imageFile := Some (File 1), error := Some ''old''\<rparr>)) = None
   \<and> imageFile (handleFileChange None (initial\<lparr>imageFile := Some (File 1), error := Some ''old''\<rparr>))
       = Some (File 1)
   \<and> run [Change (Some [File 1]), Change None :: unit event] =
       selected\<lparr>error := None, trace := trace selected @ [SetError None]\<rparr>"
  using handleFileChange_no_file [where files = None
      and w = "initial\<lparr>imageFile := Some (File 1), error := Some ''old''\<rparr>"
      and evs = "[Change (Some [File 1]) :: unit event]"]
  by (simp add: initial_def)

subsection \<open>The summary of a result without an accident\<close>

text \<open>
  Claim C6. For a stored result whose \<^verbatim>\<open>accidentDetected\<close> is false, the summary
  shows the line "Accident Detected: No" and no detection block, whatever the
  result's \<^verbatim>\<open>detection\<close> field holds.
\<close>

theorem summary_no_accident:
  assumes "result w = Some r" and "\<not> accidentDetected r"
  shows "summary (Predict numberToString w) = Some (renderSummary numberToString r)
       \<and> accidentLine (renderSummary numberToString r) = ''Accident Detected: No''
       \<and> detectionBlock (renderSummary numberToString r) = None"
  using assms by (simp add: Predict_def renderSummary_def)

theorem summary_no_accident_witness:
  "map_option accidentLine
     (summary (Predict (\<lambda>q. [])
        (initial\<lparr>result := Some \<lparr>success = True, accidentDetected = False,
           detection = Some \<lparr>class' = ''collision'', confidence = Finite 1, severity = None\<rparr>,
           processedImage = None\<rparr>\<rparr>)))
     = Some ''Accident Detected: No''
   \<and> map_option detectionBlock
     (summary (Predict (\<lambda>q. [])
        (initial\<lparr>result := Some \<lparr>success = True, accidentDetected = False,
           detection = Some \<lparr>class' = ''collision'', confidence = Finite 1, severity = None\<rparr>,
           processedImage = None\<rparr>\<rparr>)))
     = Some None"
  using summary_no_accident [of
      "initial\<lparr>result := Some \<lparr>success = True, accidentDetected = False,
           detection = Some \<lparr>class' = ''collision'', confidence = Finite 1, severity = None\<rparr>,
           processedImage = None\<rparr>\<rparr>"
      "\<lparr>success = True, accidentDetected = False,
           detection = Some \<lparr>class' = ''collision'', confidence = Finite 1, severity = None\<rparr>,
           processedImage = None\<rparr>" "\<lambda>q. []"]
  by (simp add: initial_def)

subsection \<open>Sample runs\<close>

lemmas analyze_defs =
  handleAnalyze_def handleAnalyze_begin_def settle_def handleAnalyze_catch_def
  handleAnalyze_finally_def setters

lemma selected_file: "imageFile selected = Some (File 1)"
  by code_simp

lemma selected_trace:
  "trace selected =
     [SetPreviewUrl None, SetError None, SetImageFile (File 1), SetResult None,
      CreateObjectURL (File 1) (Blob 0), SetPreviewUrl (Some (Blob 0))]"
  by code_simp

lemma sample_reader_promise:
  "convertFileToBase64 (sample_reader f) = Fulfilled (Some ''data:image/png;base64,iVBORw0KGgo='')"
  by (simp add: convertFileToBase64_def resolve_def)

lemma failing_reader_promise:
  "convertFileToBase64 (failing_reader f) = RejectedWith (ThrownString ''Error reading file'')"
  by (simp add: convertFileToBase64_def resolve_def reject_def)

subsection \<open>Submitting with a file selected\<close>

text \<open>
  Claim C1, as amended. With a file selected, one run of \<^verbatim>\<open>handleAnalyze\<close> extends
  the trace by \<^verbatim>\<open>setLoading(true)\<close>, \<^verbatim>\<open>setError(null)\<close>, \<^verbatim>\<open>setResult(null)\<close>
  and the read of the selected file, in this order; then, only when the promise of the
  encoding is fulfilled, by one call of \<^verbatim>\<open>analyzeImage\<close> with the payload the promise
  was fulfilled with, and by the setters of the outcome (after a rejection
  \<^verbatim>\<open>setError\<close>, unless reading the message throws, and \<^verbatim>\<open>setLoading(false)\<close>).
  The file is read once. The API is called once when the encoding succeeds, and not
  at all when the encoding is rejected or never settles.
\<close>

theorem handleAnalyze_trace:
  assumes "imageFile w = Some f"
  shows "trace (handleAnalyze reader analyzeImage w) =
           trace w @ [SetLoading True, SetError None, SetResult None, ReadAsDataURL f]
             @ (case convertFileToBase64 (reader f) of
                  Pending \<Rightarrow> []
                | RejectedWith err \<Rightarrow>
                    (case message err of
                       Inl TypeError \<Rightarrow> []
                     | Inr m \<Rightarrow> [SetError (Some (js_or m ''Error analyzing image''))])
                    @ [SetLoading False]
                | Fulfilled base64 \<Rightarrow>
                    AnalyzeImage base64
                    # (case analyzeImage base64 of
                         Pending \<Rightarrow> []
                       | RejectedWith err \<Rightarrow>
                           (case message err of
                              Inl TypeError \<Rightarrow> []
                            | Inr m \<Rightarrow> [SetError (Some (js_or m ''Error analyzing image''))])
                           @ [SetLoading False]
                       | Fulfilled response \<Rightarrow>
                           [SetResult (Some (simplifiedResult response)), SetLoading False]))
       \<and> fileReads (trace (handleAnalyze reader analyzeImage w)) = fileReads (trace w) @ [f]
       \<and> apiCalls (trace (handleAnalyze reader analyzeImage w)) =
           apiCalls (trace w)
             @ (case convertFileToBase64 (reader f) of Fulfilled base64 \<Rightarrow> [base64] | _ \<Rightarrow> [])"
  using assms
  by (auto simp: analyze_defs fileReads_def apiCalls_def
           split: promise.splits sum.splits js_error.splits)

theorem handleAnalyze_trace_witness:
  "imageFile selected = Some (File 1)
   \<and> trace (handleAnalyze sample_reader sample_api selected) =
       trace selected
         @ [SetLoading True, SetError None, SetResult None, ReadAsDataURL (File 1),
            AnalyzeImage (Some ''data:image/png;base64,iVBORw0KGgo=''),
            SetResult (Some sample_response), SetLoading False]
   \<and> fileReads (trace (handleAnalyze sample_reader sample_api selected)) = [File 1]
   \<and> apiCalls (trace (handleAnalyze sample_reader sample_api selected)) =
       [Some ''data:image/png;base64,iVBORw0KGgo='']"
  using handleAnalyze_trace [where w = selected and f = "File 1" and reader = sample_reader
        and analyzeImage = sample_api]
    selected_file sample_reader_promise selected_trace
  by (simp add: simplifiedResult_def fileReads_def apiCalls_def)

text \<open>
  The claim C1 as stated promises one call of \<^verbatim>\<open>analyzeImage\<close> on every submit with
  a file selected. With a file selected and a read that fails, the encoding is
  rejected, the \<^verbatim>\<open>catch\<close> block runs, and the API is not called.
\<close>

theorem handleAnalyze_encode_failure_sends_nothing:
  "imageFile selected = Some (File 1)
   \<and> apiCalls (trace (handleAnalyze failing_reader sample_api selected)) = []"
  by code_simp

subsection \<open>A failed attempt\<close>

text \<open>
  Claim C2. The claim promises, for every failed attempt, the message of the rejection
  as error, or the generic message when the rejection carries none. The
  \<^verbatim>\<open>catch\<close> block reads \<^verbatim>\<open>err.message\<close> on whatever the promise was rejected
  with. When \<^verbatim>\<open>analyzeImage\<close> rejects with undefined or null, which carry no
  message, that read throws, \<^verbatim>\<open>setError\<close> is never called, and the attempt ends
  with loading false, no result and the error still null: the failure is shown
  nowhere. The code is evaluated here on that input, for one run of
  \<^verbatim>\<open>handleAnalyze\<close> and for the same events in the mounted component.
\<close>

theorem handleAnalyze_nullish_rejection:
  "imageFile selected = Some (File 1)
   \<and> convertFileToBase64 (sample_reader (File 1)) =
       Fulfilled (Some ''data:image/png;base64,iVBORw0KGgo='')
   \<and> nullish_api (Some ''data:image/png;base64,iVBORw0KGgo='') = RejectedWith ThrownNullish
   \<and> error (handleAnalyze sample_reader nullish_api selected) = None
   \<and> loading (handleAnalyze sample_reader nullish_api selected) = False
   \<and> result (handleAnalyze sample_reader nullish_api selected) = None
   \<and> trace (handleAnalyze sample_reader nullish_api selected) =
       trace selected
         @ [SetLoading True, SetError None, SetResult None, ReadAsDataURL (File 1),
            AnalyzeImage (Some ''data:image/png;base64,iVBORw0KGgo=''), SetLoading False]
   \<and> error (run [Change (Some [File 1]), Click, Settled 0 (ReaderEvents (sample_reader (File 1))),
        Settled 0 (ApiReply (RejectedWith ThrownNullish)) :: unit event]) = None
   \<and> loading (run [Change (Some [File 1]), Click, Settled 0 (ReaderEvents (sample_reader (File 1))),
        Settled 0 (ApiReply (RejectedWith ThrownNullish)) :: unit event]) = False
   \<and> inflight (run [Change (Some [File 1]), Click, Settled 0 (ReaderEvents (sample_reader (File 1))),
        Settled 0 (ApiReply (RejectedWith ThrownNullish)) :: unit event]) = []"
  by code_simp

text \<open>
  For every rejection whose message can be read (a bare string, or an error object
  with or without a message) the attempt ends as the claim says. When the encoding
  is rejected, or the encoding is fulfilled and \<^verbatim>\<open>analyzeImage\<close> is rejected,
  \<^verbatim>\<open>handleAnalyze\<close> ends with the error set to the message of the rejection, or to
  "Error analyzing image" when there is none (the field is undefined, or it is the
  empty string, both falsy for \<^verbatim>\<open>||\<close>), with loading false and the result null. A
  read that fails rejects with the bare string "Error reading file", which has no
  message field, so the generic message is shown. The third part is the same for the
  component under any sequence of events: when the one suspended invocation is
  rejected, the state after that event has the error, loading false, no result, and
  nothing in flight.
\<close>

theorem handleAnalyze_failure:
  "(imageFile w = Some f \<and> message err = Inr msg
      \<and> (convertFileToBase64 (reader f) = RejectedWith err
         \<or> (\<exists>base64. convertFileToBase64 (reader f) = Fulfilled base64
                    \<and> analyzeImage base64 = RejectedWith err))
    \<longrightarrow> error (handleAnalyze reader analyzeImage w) =
          Some (case msg of
                  None \<Rightarrow> ''Error analyzing image''
                | Some m \<Rightarrow> if m = [] then ''Error analyzing image'' else m)
        \<and> loading (handleAnalyze reader analyzeImage w) = False
        \<and> result (handleAnalyze reader analyzeImage w) = None)
   \<and> (imageFile w = Some f \<and> reader f = fileReaderEvents ReadFailed
    \<longrightarrow> convertFileToBase64 (reader f) = RejectedWith (ThrownString ''Error reading file'')
        \<and> error (handleAnalyze reader analyzeImage w) = Some ''Error analyzing image''
        \<and> loading (handleAnalyze reader analyzeImage w) = False
        \<and> result (handleAnalyze reader analyzeImage w) = None)
   \<and> (inflight (run evs) = [t] \<and> message err = Inr msg
      \<and> ((\<exists>file. t = AwaitEncode file) \<and> s = ReaderEvents revs
            \<and> convertFileToBase64 revs = RejectedWith err
         \<or> (\<exists>base64. t = AwaitAnalyze base64) \<and> s = ApiReply (RejectedWith err))
    \<longrightarrow> error (run (evs @ [Settled 0 s])) =
          Some (case msg of
                  None \<Rightarrow> ''Error analyzing image''
                | Some m \<Rightarrow> if m = [] then ''Error analyzing image'' else m)
        \<and> loading (run (evs @ [Settled 0 s])) = False
        \<and> result (run (evs @ [Settled 0 s])) = None
        \<and> inflight (run (evs @ [Settled 0 s])) = [])"
proof -
  let ?msg = "\<lambda>msg. case msg of
                  None \<Rightarrow> ''Error analyzing image''
                | Some m \<Rightarrow> if m = [] then ''Error analyzing image'' else m"
  have j: "js_or m ''Error analyzing image'' = ?msg m" for m
    by (cases m) simp_all
  have k: "handleAnalyze_catch e v = setError (Some (?msg m)) v" if "message e = Inr m" for e m v
    using that by (simp add: handleAnalyze_catch_def j)
  have a: "error (handleAnalyze reader analyzeImage w) = Some (?msg m)
        \<and> loading (handleAnalyze reader analyzeImage w) = False
        \<and> result (handleAnalyze reader analyzeImage w) = None"
    if "imageFile w = Some f" and "message e = Inr m"
      and "convertFileToBase64 (reader f) = RejectedWith e
         \<or> (\<exists>base64. convertFileToBase64 (reader f) = Fulfilled base64
                    \<and> analyzeImage base64 = RejectedWith e)"
    for e m
    using that(1,3)
    by (auto simp: handleAnalyze_def handleAnalyze_begin_def settle_def handleAnalyze_finally_def
                   k [OF that(2)] setters)
  have r: "convertFileToBase64 (fileReaderEvents ReadFailed) = RejectedWith (ThrownString ''Error reading file'')"
    by (simp add: convertFileToBase64_def reject_def resolve_def)
  have b: "convertFileToBase64 (reader f) = RejectedWith (ThrownString ''Error reading file'')
        \<and> error (handleAnalyze reader analyzeImage w) = Some ''Error analyzing image''
        \<and> loading (handleAnalyze reader analyzeImage w) = False
        \<and> result (handleAnalyze reader analyzeImage w) = None"
    if "imageFile w = Some f" and "reader f = fileReaderEvents ReadFailed"
    using a [of "ThrownString ''Error reading file''" None] that r by simp
  have c: "error (run (evs @ [Settled 0 s])) = Some (?msg msg)
        \<and> loading (run (evs @ [Settled 0 s])) = False
        \<and> result (run (evs @ [Settled 0 s])) = None
        \<and> inflight (run (evs @ [Settled 0 s])) = []"
    if i: "inflight (run evs) = [t]" and m: "message err = Inr msg"
      and f: "(\<exists>file. t = AwaitEncode file) \<and> s = ReaderEvents revs
            \<and> convertFileToBase64 revs = RejectedWith err
         \<or> (\<exists>base64. t = AwaitAnalyze base64) \<and> s = ApiReply (RejectedWith err)"
  proof -
    let ?v = "dispatch (Settled 0 s) (run evs)"
    from taskInv_run [of evs] i have e: "result (run evs) = None"
      by (simp add: taskInv_def)
    have "error ?v = Some (?msg msg) \<and> loading ?v = False \<and> result ?v = None \<and> inflight ?v = []"
      using i e f
      by (auto simp: settleTask_def k [OF m] handleAnalyze_finally_def setters)
    then show ?thesis
      using flushEffects_frame [of ?v] by (simp add: run_snoc step_def)
  qed
  from a [of err msg] b c show ?thesis by blast
qed

theorem handleAnalyze_failure_witness:
  "error (handleAnalyze sample_reader failing_api selected) = Some ''Network Error''
   \<and> loading (handleAnalyze sample_reader failing_api selected) = False
   \<and> result (handleAnalyze sample_reader failing_api selected) = None
   \<and> error (handleAnalyze failing_reader sample_api selected) = Some ''Error analyzing image''
   \<and> loading (handleAnalyze failing_reader sample_api selected) = False
   \<and> result (handleAnalyze failing_reader sample_api selected) = None
   \<and> inflight (run [Change (Some [File 1]), Click :: unit event]) = [AwaitEncode (File 1)]
   \<and> error (run [Change (Some [File 1]), Click,
         Settled 0 (ReaderEvents (failing_reader (File 1))) :: unit event])
       = Some ''Error analyzing image''
   \<and> loading (run [Change (Some [File 1]), Click,
         Settled 0 (ReaderEvents (failing_reader (File 1))) :: unit event]) = False
   \<and> result (run [Change (Some [File 1]), Click,
         Settled 0 (ReaderEvents (failing_reader (File 1))) :: unit event]) = None"
proof -
  have i: "inflight (run [Change (Some [File 1]), Click :: unit event]) = [AwaitEncode (File 1)]"
    by code_simp
  note a = handleAnalyze_failure [where w = selected and f = "File 1" and reader = sample_reader
      and analyzeImage = failing_api and err = "ThrownError (Some ''Network Error'')"
      and msg = "Some ''Network Error''"
      and evs = "[Change (Some [File 1]), Click :: unit event]" and t = "AwaitEncode (File 1)"
      and s = "ReaderEvents (failing_reader (File 1))" and revs = "failing_reader (File 1)"]
  note b = handleAnalyze_failure [where w = selected and f = "File 1" and reader = failing_reader
      and analyzeImage = sample_api and err = "ThrownString ''Error reading file''"
      and msg = None
      and evs = "[Change (Some [File 1]), Click :: unit event]" and t = "AwaitEncode (File 1)"
      and s = "ReaderEvents (failing_reader (File 1))" and revs = "failing_reader (File 1)"]
  show ?thesis
    using a b selected_file sample_reader_promise failing_reader_promise i
    by simp
qed

subsection \<open>A successful response\<close>

text \<open>
  Claim C4. When the encoding is fulfilled and \<^verbatim>\<open>analyzeImage\<close> is fulfilled with a
  response, \<^verbatim>\<open>handleAnalyze\<close> ends with the result set to the four fields of the
  response (success, accidentDetected, detection, processedImage), loading false and
  the error null. The second part is the same for the component under any sequence
  of events: when the suspended invocation waits for the API and the API answers, the
  state after that event has the normalized result, loading false, no error.
\<close>

theorem handleAnalyze_success:
  "(imageFile w = Some f \<and> convertFileToBase64 (reader f) = Fulfilled base64
      \<and> analyzeImage base64 = Fulfilled response
    \<longrightarrow> result (handleAnalyze reader analyzeImage w) =
          Some \<lparr>success = success response, accidentDetected = accidentDetected response,
                detection = detection response, processedImage = processedImage response\<rparr>
        \<and> loading (handleAnalyze reader analyzeImage w) = False
        \<and> error (handleAnalyze reader analyzeImage w) = None)
   \<and> (inflight (run evs) = [AwaitAnalyze payload]
    \<longrightarrow> result (run (evs @ [Settled 0 (ApiReply (Fulfilled response))])) =
          Some \<lparr>success = success response, accidentDetected = accidentDetected response,
                detection = detection response, processedImage = processedImage response\<rparr>
        \<and> loading (run (evs @ [Settled 0 (ApiReply (Fulfilled response))])) = False
        \<and> error (run (evs @ [Settled 0 (ApiReply (Fulfilled response))])) = None
        \<and> inflight (run (evs @ [Settled 0 (ApiReply (Fulfilled response))])) = [])"
proof -
  have a: "imageFile w = Some f \<and> convertFileToBase64 (reader f) = Fulfilled base64
      \<and> analyzeImage base64 = Fulfilled response
    \<longrightarrow> result (handleAnalyze reader analyzeImage w) =
          Some \<lparr>success = success response, accidentDetected = accidentDetected response,
                detection = detection response, processedImage = processedImage response\<rparr>
        \<and> loading (handleAnalyze reader analyzeImage w) = False
        \<and> error (handleAnalyze reader analyzeImage w) = None"
    by (simp add: analyze_defs simplifiedResult_def)
  have b: "result (run (evs @ [Settled 0 (ApiReply (Fulfilled response))])) =
          Some \<lparr>success = success response, accidentDetected = accidentDetected response,
                detection = detection response, processedImage = processedImage response\<rparr>
        \<and> loading (run (evs @ [Settled 0 (ApiReply (Fulfilled response))])) = False
        \<and> error (run (evs @ [Settled 0 (ApiReply (Fulfilled response))])) = None
        \<and> inflight (run (evs @ [Settled 0 (ApiReply (Fulfilled response))])) = []"
    if i: "inflight (run evs) = [AwaitAnalyze payload]"
  proof -
    let ?v = "dispatch (Settled 0 (ApiReply (Fulfilled response))) (run evs)"
    from taskInv_run [of evs] i have e: "error (run evs) = None"
      by (simp add: taskInv_def)
    have "result ?v = Some (simplifiedResult response) \<and> loading ?v = False
          \<and> error ?v = None \<and> inflight ?v = []"
      using i e by (simp add: settleTask_def handleAnalyze_finally_def setters)
    then show ?thesis
      using flushEffects_frame [of ?v]
      by (simp add: run_snoc step_def simplifiedResult_def)
  qed
  from a b show ?thesis by blast
qed

theorem handleAnalyze_success_witness:
  "result (handleAnalyze sample_reader sample_api selected) = Some sample_response
   \<and> loading (handleAnalyze sample_reader sample_api selected) = False
   \<and> error (handleAnalyze sample_reader sample_api selected) = None
   \<and> inflight (run [Change (Some [File 1]), Click, Settled 0 (ReaderEvents (sample_reader (File 1)))
        :: unit event])
       = [AwaitAnalyze (Some ''data:image/png;base64,iVBORw0KGgo='')]
   \<and> result (run [Change (Some [File 1]), Click, Settled 0 (ReaderEvents (sample_reader (File 1))),
        Settled 0 (ApiReply (Fulfilled sample_response)) :: unit event]) = Some sample_response
   \<and> loading (run [Change (Some [File 1]), Click, Settled 0 (ReaderEvents (sample_reader (File 1))),
        Settled 0 (ApiReply (Fulfilled sample_response)) :: unit event]) = False
   \<and> error (run [Change (Some [File 1]), Click, Settled 0 (ReaderEvents (sample_reader (File 1))),
        Settled 0 (ApiReply (Fulfilled sample_response)) :: unit event]) = None"
proof -
  have i: "inflight (run [Change (Some [File 1]), Click,
        Settled 0 (ReaderEvents (sample_reader (File 1))) :: unit event])
       = [AwaitAnalyze (Some ''data:image/png;base64,iVBORw0KGgo='')]"
    by code_simp
  show ?thesis
    using handleAnalyze_success [where w = selected and f = "File 1" and reader = sample_reader
        and ?base64.0 = "Some ''data:image/png;base64,iVBORw0KGgo=''" and analyzeImage = sample_api
        and response = sample_response
        and evs = "[Change (Some [File 1]), Click, Settled 0 (ReaderEvents (sample_reader (File 1)))]"
        and payload = "Some ''data:image/png;base64,iVBORw0KGgo=''"]
      selected_file sample_reader_promise i
    by simp
qed

subsection \<open>Selecting a file\<close>

text \<open>
  Claim C7. On a change event that carries a file, \<^verbatim>\<open>handleFileChange\<close> sets the
  error and the result to null and selects the file; after the render that follows,
  the effect has set the preview to an object URL that was allocated for this file
  and is not released.
\<close>

theorem file_selection:
  "error (handleFileChange (Some (f # fs)) w) = None
   \<and> result (handleFileChange (Some (f # fs)) w) = None
   \<and> imageFile (handleFileChange (Some (f # fs)) w) = Some f
   \<and> error (run (evs @ [Change (Some (f # fs))])) = None
   \<and> result (run (evs @ [Change (Some (f # fs))])) = None
   \<and> imageFile (run (evs @ [Change (Some (f # fs))])) = Some f
   \<and> (\<exists>u. previewUrl (run (evs @ [Change (Some (f # fs))])) = Some u
          \<and> CreateObjectURL f u \<in> set (trace (run (evs @ [Change (Some (f # fs))])))
          \<and> urlState u (trace (run (evs @ [Change (Some (f # fs))]))) = Live)"
proof -
  let ?w = "run (evs @ [Change (Some (f # fs))])"
  have h: "error (handleFileChange (Some (f # fs)) v) = None
   \<and> result (handleFileChange (Some (f # fs)) v) = None
   \<and> imageFile (handleFileChange (Some (f # fs)) v) = Some f" for v
    by (simp add: handleFileChange_def Let_def setters)
  have e: "error ?w = None \<and> result ?w = None \<and> imageFile ?w = Some f"
    using h [of "run evs"] flushEffects_frame [of "handleFileChange (Some (f # fs)) (run evs)"]
    by (simp add: run_snoc step_def)
  from urlInv_run [of "evs @ [Change (Some (f # fs))]"] e
  obtain u where u: "cleanup ?w = Some u" "previewUrl ?w = Some u" "CreateObjectURL f u \<in> set (trace ?w)"
    by (auto simp: urlInv_def split: option.splits)
  obtain n where n: "u = Blob n" by (cases u)
  from urlInv_run [of "evs @ [Change (Some (f # fs))]"] u n
  have "urlState u (trace ?w) = Live"
    by (auto simp: urlInv_def split: if_splits)
  with h e u show ?thesis by blast
qed

theorem file_selection_witness:
  "error selected = None \<and> result selected = None \<and> imageFile selected = Some (File 1)
   \<and> previewUrl selected = Some (Blob 0)
   \<and> CreateObjectURL (File 1) (Blob 0) \<in> set (trace selected)
   \<and> urlState (Blob 0) (trace selected) = Live"
proof -
  have p: "previewUrl selected = Some (Blob 0)"
    by code_simp
  show ?thesis
    using file_selection [where evs = "[] :: unit event list" and f = "File 1" and fs = "[]"] p
    by simp
qed

subsection \<open>The life of a preview URL\<close>

text \<open>
  Claim C8. At every moment of the mounted component each object URL has been
  allocated at most once; every allocated URL but the one previewed has been released
  exactly once, and the previewed one not yet. Unmounting allocates nothing and
  releases the previewed URL, so that over the whole life of the component, from
  mount to unmount, every allocated URL is released exactly once, after its
  allocation: by the cleanup that runs when another file is selected, or by the one
  that runs at unmount, never by both.
\<close>

theorem objectURL_released_once:
  "created u (trace (run evs)) \<le> 1
   \<and> revoked u (trace (run evs)) = (if previewUrl (run evs) = Some u then 0 else created u (trace (run evs)))
   \<and> urlState u (trace (run evs)) =
       (if created u (trace (run evs)) = 0 then Unallocated
        else if previewUrl (run evs) = Some u then Live else Released)
   \<and> created u (trace (unmount (run evs))) = created u (trace (run evs))
   \<and> revoked u (trace (unmount (run evs))) = created u (trace (run evs))
   \<and> urlState u (trace (unmount (run evs))) =
       (if created u (trace (run evs)) = 0 then Unallocated else Released)"
proof -
  obtain n where u: "u = Blob n" by (cases u)
  from urlInv_run [of evs] show ?thesis
    unfolding urlInv_def u
    by (cases "cleanup (run evs)")
       (auto simp: unmount_def effects setters created_append revoked_append urlState_append
                   created_simps revoked_simps split: if_splits)
qed

theorem objectURL_released_once_witness:
  "previewUrl (run [Change (Some [File 1]), Change (Some [File 2]) :: unit event]) = Some (Blob 1)
   \<and> revoked (Blob 0) (trace (run [Change (Some [File 1]), Change (Some [File 2]) :: unit event])) = 1
   \<and> revoked (Blob 1) (trace (run [Change (Some [File 1]), Change (Some [File 2]) :: unit event])) = 0
   \<and> revoked (Blob 0)
       (trace (unmount (run [Change (Some [File 1]), Change (Some [File 2]) :: unit event]))) = 1
   \<and> revoked (Blob 1)
       (trace (unmount (run [Change (Some [File 1]), Change (Some [File 2]) :: unit event]))) = 1
   \<and> urlState (Blob 1)
       (trace (unmount (run [Change (Some [File 1]), Change (Some [File 2]) :: unit event]))) = Released"
proof -
  have p: "previewUrl (run [Change (Some [File 1]), Change (Some [File 2]) :: unit event]) = Some (Blob 1)"
    by code_simp
  have c: "created (Blob 0) (trace (run [Change (Some [File 1]), Change (Some [File 2]) :: unit event])) = 1"
    "created (Blob 1) (trace (run [Change (Some [File 1]), Change (Some [File 2]) :: unit event])) = 1"
    by code_simp+
  show ?thesis
    using objectURL_released_once [where u = "Blob 0"
        and evs = "[Change (Some [File 1]), Change (Some [File 2]) :: unit event]"]
      objectURL_released_once [where u = "Blob 1"
        and evs = "[Change (Some [File 1]), Change (Some [File 2]) :: unit event]"]
      p c
    by simp
qed

subsection \<open>The Analyze button\<close>

text \<open>
  Claim C9. In every state the button is disabled exactly when loading is true or no
  file is selected. In every state the mounted component reaches, at most one invocation of
  \<^verbatim>\<open>handleAnalyze\<close> is ever suspended, and loading is true exactly while one is. A
  click while one is in flight, or with no file selected, reaches no handler and
  changes nothing, so the button starts no second request and never runs
  \<^verbatim>\<open>handleAnalyze\<close> without a file.
\<close>

theorem analyze_button_guard:
  "buttonDisabled (Predict numberToString w) = (loading w \<or> imageFile w = None)
   \<and> length (inflight (run evs)) \<le> 1
   \<and> (loading (run evs) \<longleftrightarrow> inflight (run evs) \<noteq> [])
   \<and> (inflight (run evs) \<noteq> [] \<longrightarrow> run (evs @ [Click]) = run evs)
   \<and> (imageFile (run evs) = None \<longrightarrow> run (evs @ [Click]) = run evs)
   \<and> length (inflight (run (evs @ [Click]))) \<le> 1"
proof -
  have d: "deps (run evs) = Some (imageFile (run evs))"
    using urlInv_run [of evs] by (simp add: urlInv_def)
  have s: "analyzeDisabled (run evs) \<Longrightarrow> run (evs @ [Click]) = run evs"
    by (simp add: run_snoc step_def flushEffects_idle [OF d])
  from taskInv_run [of evs] taskInv_run [of "evs @ [Click]"] s show ?thesis
    by (auto simp: taskInv_def Predict_def analyzeDisabled_def)
qed

theorem analyze_button_guard_witness:
  "inflight (run [Change (Some [File 1]), Click :: unit event]) \<noteq> []
   \<and> run [Change (Some [File 1]), Click, Click :: unit event]
       = run [Change (Some [File 1]), Click :: unit event]
   \<and> imageFile (run ([] :: unit event list)) = None
   \<and> run [Click :: unit event] = run ([] :: unit event list)"
proof -
  have i: "inflight (run [Change (Some [File 1]), Click :: unit event]) = [AwaitEncode (File 1)]"
    by code_simp
  have f: "imageFile (run ([] :: unit event list)) = None"
    by (simp add: run_def imageFile_mount)
  show ?thesis
    using analyze_button_guard [where evs = "[Change (Some [File 1]), Click :: unit event]"]
      analyze_button_guard [where evs = "[] :: unit event list"] i f
    by simp
qed

subsection \<open>The summary of a detected accident\<close>

text \<open>
  Claim C5, as amended. For a stored result with \<^verbatim>\<open>accidentDetected\<close> true and a
  detection whose confidence is a finite number of magnitude at most \<open>10 ^ 18\<close>
  (the range 0 to 1 of the data model is inside), the summary shows a detection block
  of three lines. The first is "Type: " and the class. The second is "Confidence: ",
  then the product \<open>x\<close> of the confidence and 100 in double arithmetic (within half
  a unit in the last place of the exact product), printed as a minus sign when
  negative, the digits of the integer part, a point and exactly one digit, the value
  rounded to the nearest tenth (away from zero on a tie), then "%". The third is
  "Severity: " and the severity, or the placeholder "N/A" when the severity is
  undefined or the empty string.
\<close>

theorem detection_summary:
  assumes "result w = Some r" and "accidentDetected r" and "detection r = Some d"
    and "confidence d = Finite c" and "\<bar>c\<bar> \<le> 10 ^ 18"
  shows "\<exists>x. times_number (confidence d) (Finite 100) = Finite x
           \<and> \<bar>x - c * 100\<bar> \<le> \<bar>c * 100\<bar> / 2 ^ 53 + 1 / 2 ^ 1075
           \<and> summary (Predict numberToString w) = Some (renderSummary numberToString r)
           \<and> detectionBlock (renderSummary numberToString r) =
               Some \<lparr>typeLine = ''Type: '' @ class' d,
                     confidenceLine =
                       ''Confidence: '' @ (if x < 0 then ''-'' else [])
                         @ digits (nat \<lfloor>\<bar>x\<bar> * 10 + 1 / 2\<rfloor> div 10) @ ''.''
                         @ [digitChar (nat \<lfloor>\<bar>x\<bar> * 10 + 1 / 2\<rfloor> mod 10)] @ ''%'',
                     severityLine =
                       ''Severity: '' @ (case severity d of
                                          None \<Rightarrow> ''N/A''
                                        | Some s \<Rightarrow> if s = [] then ''N/A'' else s)\<rparr>
           \<and> set (digits (nat \<lfloor>\<bar>x\<bar> * 10 + 1 / 2\<rfloor> div 10)) \<subseteq> set ''0123456789''
           \<and> digitChar (nat \<lfloor>\<bar>x\<bar> * 10 + 1 / 2\<rfloor> mod 10) \<in> set ''0123456789''"
proof -
  from assms(5) have "\<bar>c * 100\<bar> \<le> 10 ^ 20" by (simp add: abs_mult)
  from toDouble_Finite [OF this] obtain x where
    x: "toDouble (c * 100) = Finite x" "\<bar>x - c * 100\<bar> \<le> \<bar>c * 100\<bar> / 2 ^ 53 + 1 / 2 ^ 1075"
       "\<bar>x\<bar> < 10 ^ 21"
    by blast
  have t: "times_number (confidence d) (Finite 100) = Finite x"
    using assms(4) x(1) by simp
  have s: "js_or (severity d) ''N/A'' =
      (case severity d of None \<Rightarrow> ''N/A'' | Some s \<Rightarrow> if s = [] then ''N/A'' else s)"
    by (cases "severity d") simp_all
  have rd: "renderDetection numberToString d =
               \<lparr>typeLine = ''Type: '' @ class' d,
                     confidenceLine =
                       ''Confidence: '' @ (if x < 0 then ''-'' else [])
                         @ digits (nat \<lfloor>\<bar>x\<bar> * 10 + 1 / 2\<rfloor> div 10) @ ''.''
                         @ [digitChar (nat \<lfloor>\<bar>x\<bar> * 10 + 1 / 2\<rfloor> mod 10)] @ ''%'',
                     severityLine =
                       ''Severity: '' @ (case severity d of
                                          None \<Rightarrow> ''N/A''
                                        | Some s \<Rightarrow> if s = [] then ''N/A'' else s)\<rparr>"
    unfolding renderDetection_def t s toFixed_one [OF x(3)] by simp
  have b: "detectionBlock (renderSummary numberToString r) =
               Some \<lparr>typeLine = ''Type: '' @ class' d,
                     confidenceLine =
                       ''Confidence: '' @ (if x < 0 then ''-'' else [])
                         @ digits (nat \<lfloor>\<bar>x\<bar> * 10 + 1 / 2\<rfloor> div 10) @ ''.''
                         @ [digitChar (nat \<lfloor>\<bar>x\<bar> * 10 + 1 / 2\<rfloor> mod 10)] @ ''%'',
                     severityLine =
                       ''Severity: '' @ (case severity d of
                                          None \<Rightarrow> ''N/A''
                                        | Some s \<Rightarrow> if s = [] then ''N/A'' else s)\<rparr>"
    using assms(2,3) rd by (simp add: renderSummary_def)
  have v: "summary (Predict numberToString w) = Some (renderSummary numberToString r)"
    using assms(1) by (simp add: Predict_def)
  have g: "digitChar (nat \<lfloor>\<bar>x\<bar> * 10 + 1 / 2\<rfloor> mod 10) \<in> set ''0123456789''"
    by (rule digitChar_digit) simp
  from t x(2) v b digits_digit g show ?thesis by blast
qed

theorem detection_summary_witness:
  "summary (Predict (\<lambda>q. []) (initial\<lparr>result := Some sample_response\<rparr>))
     = Some (renderSummary (\<lambda>q. []) sample_response)
   \<and> detectionBlock (renderSummary (\<lambda>q. []) sample_response) =
       Some \<lparr>typeLine = ''Type: collision'', confidenceLine = ''Confidence: 87.0%'',
             severityLine = ''Severity: high''\<rparr>
   \<and> detectionBlock (renderSummary (\<lambda>q. [])
         (sample_response\<lparr>detection := Some (sample_detection\<lparr>severity := None\<rparr>)\<rparr>)) =
       Some \<lparr>typeLine = ''Type: collision'', confidenceLine = ''Confidence: 87.0%'',
             severityLine = ''Severity: N/A''\<rparr>"
proof -
  have r: "result (initial\<lparr>result := Some r\<rparr>) = Some r" for r
    by (simp add: initial_def)
  have c: "\<bar>7836263351624663 / 9007199254740992 :: rat\<bar> \<le> 10 ^ 18"
    by simp
  from detection_summary [where w = "initial\<lparr>result := Some sample_response\<rparr>"
      and r = sample_response and d = sample_detection
      and c = "7836263351624663 / 9007199254740992" and numberToString = "\<lambda>q. []", OF r _ _ _ c]
  obtain x where x: "times_number (confidence sample_detection) (Finite 100) = Finite x"
    and v: "summary (Predict (\<lambda>q. []) (initial\<lparr>result := Some sample_response\<rparr>))
             = Some (renderSummary (\<lambda>q. []) sample_response)"
    and b: "detectionBlock (renderSummary (\<lambda>q. []) sample_response) =
       Some \<lparr>typeLine = ''Type: '' @ class' sample_detection,
             confidenceLine =
               ''Confidence: '' @ (if x < 0 then ''-'' else [])
                 @ digits (nat \<lfloor>\<bar>x\<bar> * 10 + 1 / 2\<rfloor> div 10) @ ''.''
                 @ [digitChar (nat \<lfloor>\<bar>x\<bar> * 10 + 1 / 2\<rfloor> mod 10)] @ ''%'',
             severityLine =
               ''Severity: '' @ (case severity sample_detection of
                                  None \<Rightarrow> ''N/A''
                                | Some s \<Rightarrow> if s = [] then ''N/A'' else s)\<rparr>"
    by auto
  from x sample_product have x87: "x = 87" by simp
  from detection_summary [where
      w = "initial\<lparr>result := Some (sample_response\<lparr>detection := Some (sample_detection\<lparr>severity := None\<rparr>)\<rparr>)\<rparr>"
      and r = "sample_response\<lparr>detection := Some (sample_detection\<lparr>severity := None\<rparr>)\<rparr>"
      and d = "sample_detection\<lparr>severity := None\<rparr>"
      and c = "7836263351624663 / 9007199254740992" and numberToString = "\<lambda>q. []", OF r _ _ _ c]
  obtain y where y: "times_number (confidence (sample_detection\<lparr>severity := None\<rparr>)) (Finite 100) = Finite y"
    and b': "detectionBlock (renderSummary (\<lambda>q. [])
         (sample_response\<lparr>detection := Some (sample_detection\<lparr>severity := None\<rparr>)\<rparr>)) =
       Some \<lparr>typeLine = ''Type: '' @ class' (sample_detection\<lparr>severity := None\<rparr>),
             confidenceLine =
               ''Confidence: '' @ (if y < 0 then ''-'' else [])
                 @ digits (nat \<lfloor>\<bar>y\<bar> * 10 + 1 / 2\<rfloor> div 10) @ ''.''
                 @ [digitChar (nat \<lfloor>\<bar>y\<bar> * 10 + 1 / 2\<rfloor> mod 10)] @ ''%'',
             severityLine =
               ''Severity: '' @ (case severity (sample_detection\<lparr>severity := None\<rparr>) of
                                  None \<Rightarrow> ''N/A''
                                | Some s \<Rightarrow> if s = [] then ''N/A'' else s)\<rparr>"
    by auto
  from y sample_product have y87: "y = 87" by simp
  show ?thesis
    using v b b' unfolding x87 y87 sample_digits by simp
qed

text \<open>
  The claim C5 as stated shows the severity whenever it is present. A detection
  whose severity is present and empty is rendered with the placeholder, since the
  empty string is falsy for \<^verbatim>\<open>||\<close>.
\<close>

theorem empty_severity_renders_placeholder:
  "severity (sample_detection\<lparr>severity := Some []\<rparr>) = Some []
   \<and> map_option severityLine
       (detectionBlock (renderSummary (\<lambda>q. [])
          (sample_response\<lparr>detection := Some (sample_detection\<lparr>severity := Some []\<rparr>)\<rparr>)))
     = Some ''Severity: N/A''"
  by (simp add: renderSummary_def renderDetection_def)

text \<open>
  Outside the range of the amended claim \<^verbatim>\<open>toFixed\<close> prints no decimal place: a
  confidence that is not a number is shown as "NaN%".
\<close>

lemma not_a_number_confidence:
  "confidenceLine (renderDetection numberToString (sample_detection\<lparr>confidence := NaN\<rparr>))
     = ''Confidence: NaN%''"
  by (simp add: renderDetection_def toFixed_def)

end
